theory Spec2Isabelle
  imports Main "HOL-Library.List_Lexorder" "HOL-Library.Multiset"
begin

section \<open>Python strings\<close>

text \<open>
  A Python \<open>str\<close> is a sequence of Unicode code points. The script calls
  \<open>strip\<close>, \<open>split\<close>, \<open>join\<close> and \<open>lower\<close> on such strings and compares paths,
  all of which work on code points, so a string is a list of naturals here.
  \<open>str\<close> turns an ASCII literal into that form.
\<close>

type_synonym pystr = "nat list"

definition str :: "string \<Rightarrow> pystr" where
  "str cs = map of_char cs"

text \<open>
  The characters \<open>str.strip()\<close> removes when called without an argument: the code
  points for which CPython's whitespace test holds.
\<close>

definition is_space :: "nat \<Rightarrow> bool" where
  "is_space c \<longleftrightarrow>
     (9 \<le> c \<and> c \<le> 13) \<or> (28 \<le> c \<and> c \<le> 32) \<or> c = 133 \<or> c = 160 \<or> c = 5760 \<or>
     (8192 \<le> c \<and> c \<le> 8202) \<or> c = 8232 \<or> c = 8233 \<or> c = 8239 \<or> c = 8287 \<or> c = 12288"

definition str_strip :: "pystr \<Rightarrow> pystr" where
  "str_strip s = rev (dropWhile is_space (rev (dropWhile is_space s)))"

text \<open>
  \<open>s.split(sep)\<close> for a one-character separator: the pieces between the
  separators, empty pieces kept; the empty string splits into one empty piece.
\<close>

fun str_split :: "nat \<Rightarrow> pystr \<Rightarrow> pystr list" where
  "str_split sep [] = [[]]"
| "str_split sep (c # cs) =
     (if c = sep then [] # str_split sep cs
      else (case str_split sep cs of
              [] \<Rightarrow> [[c]]
            | l # ls \<Rightarrow> (c # l) # ls))"

text \<open>\<open>sep.join(pieces)\<close> for a one-character separator.\<close>

fun str_join :: "nat \<Rightarrow> pystr list \<Rightarrow> pystr" where
  "str_join sep [] = []"
| "str_join sep [x] = x"
| "str_join sep (x # y # ys) = x @ sep # str_join sep (y # ys)"

text \<open>
  \<open>s.lower()\<close>. On a string of ASCII characters it maps \<open>A\<close>..\<open>Z\<close> to \<open>a\<close>..\<open>z\<close>
  and leaves the rest. On a string with a character above 127 Python applies the
  Unicode case tables of the interpreter, which are not part of the repository:
  they are the parameter \<open>ulower\<close>.
\<close>

definition ascii_lower :: "nat \<Rightarrow> nat" where
  "ascii_lower c = (if 65 \<le> c \<and> c \<le> 90 then c + 32 else c)"

definition str_lower :: "(pystr \<Rightarrow> pystr) \<Rightarrow> pystr \<Rightarrow> pystr" where
  "str_lower ulower s = (if list_all (\<lambda>c. c < 128) s then map ascii_lower s else ulower s)"


section \<open>Tables and the dataframe libraries\<close>

text \<open>
  Polars and Pandas are libraries, not code of the repository. The script uses four
  of their operations: reading a CSV file into a table, the number of rows of a
  table, and writing a table as CSV with or without its header line.

  A table is kept at the granularity the script works at: the header record and
  the data records, each as the line the CSV writer produces for it (without the
  line terminator). How a value is rendered inside a record is the library's
  business and is not modelled.
\<close>

record dataframe =
  header_line :: pystr
  row_lines :: "pystr list"

text \<open>\<open>df.height\<close> in Polars, \<open>len(df)\<close> in Pandas.\<close>

definition height :: "dataframe \<Rightarrow> nat" where
  "height df = length (row_lines df)"

text \<open>
  Modelled from the spec: the CSV writers of the libraries are not under src/. The
  spec (External interfaces) gives the format: plain CSV, one header line followed
  by data rows, newline-terminated records. \<open>rows_text\<close> is what
  \<open>df.to_csv(..., header=False)\<close> writes, \<open>write_csv\<close> is what \<open>df.write_csv()\<close>
  returns and what \<open>df.write_csv(f)\<close> and \<open>df.to_csv(..., index=False)\<close> write.
\<close>

definition rows_text :: "dataframe \<Rightarrow> pystr" where
  "rows_text df = concat (map (\<lambda>r. r @ [10]) (row_lines df))"

definition write_csv :: "dataframe \<Rightarrow> pystr" where
  "write_csv df = header_line df @ 10 # rows_text df"


section \<open>The world the script runs in\<close>

type_synonym path = pystr

datatype exn = Exn pystr

datatype engine = Polars | Pandas

text \<open>One constructor for each \<open>print\<close> (and the prompt of \<open>input\<close>) of the script.\<close>

datatype msg =
    Combining nat engine
  | OutputFile
  | Rule
  | Reading nat nat path
  | RowCount nat
  | ErrorReading path exn
  | Success nat
  | TotalRows nat
  | Output
  | DirMissing
  | NoCsvFound
  | Prompt
  | Cancelled
  | Blank
  | Found nat
  | Using engine
  | Failed exn
  | OutputSize

text \<open>
  What the script is given and cannot change: whether the input directory exists,
  the names \<open>glob("*.csv")\<close> yields (in the order of the directory), what the
  library's reader returns for each name (a table, or the exception it raises),
  whether writing the table of a file to the output raises (the exception, and how
  many characters reach the file before it), the line the user types at the prompt,
  the engine chosen at import time, and the interpreter's Unicode lowercasing.
\<close>

record env =
  dir_exists :: bool
  listing :: "path list"
  read_csv :: "path \<Rightarrow> exn + dataframe"
  write_fault :: "path \<Rightarrow> (exn \<times> nat) option"
  response :: pystr
  use_polars :: bool
  ulower :: "pystr \<Rightarrow> pystr"

text \<open>
  What the script changes: the console, the output file (\<open>None\<close> when it does not
  exist) and, as a trace, the files handed to the reader so far.
\<close>

record state =
  console :: "msg list"
  outfile :: "pystr option"
  read_log :: "path list"

definition say :: "msg \<Rightarrow> state \<Rightarrow> state" where
  "say m s = s\<lparr>console := console s @ [m]\<rparr>"

definition note_read :: "path \<Rightarrow> state \<Rightarrow> state" where
  "note_read f s = s\<lparr>read_log := read_log s @ [f]\<rparr>"

text \<open>\<open>open(output_file, 'w')\<close>: the file exists and is empty afterwards.\<close>

definition open_w :: "state \<Rightarrow> state" where
  "open_w s = s\<lparr>outfile := Some []\<rparr>"

text \<open>Writing to a file open for writing or appending adds to its end.\<close>

definition fwrite :: "pystr \<Rightarrow> state \<Rightarrow> state" where
  "fwrite x s = s\<lparr>outfile := Some ((case outfile s of None \<Rightarrow> [] | Some c \<Rightarrow> c) @ x)\<rparr>"


section \<open>combine\_csv\_polars\<close>

text \<open>
  Lines 60 to 63: the rows of a later file are taken from the CSV string of the
  whole table by stripping it, splitting it at newlines, dropping the first line
  and joining the rest, with a newline added.
\<close>

definition skip_header :: "dataframe \<Rightarrow> pystr" where
  "skip_header df = str_join 10 (drop 1 (str_split 10 (str_strip (write_csv df)))) @ [10]"

text \<open>
  The loop of lines 43 to 70, with \<open>n = len(csv_files)\<close>, the 1-based index \<open>i\<close>
  and \<open>total_rows\<close>. The result is the exception that left the loop, if any, the
  total and the state.
\<close>

fun polars_loop ::
  "env \<Rightarrow> nat \<Rightarrow> nat \<Rightarrow> path list \<Rightarrow> nat \<Rightarrow> state \<Rightarrow> exn option \<times> nat \<times> state" where
  "polars_loop E n i [] total_rows s = (None, total_rows, s)"
| "polars_loop E n i (f # fs) total_rows s =
     (let s1 = note_read f (say (Reading i n f) s) in
      case read_csv E f of
        Inl e \<Rightarrow> (Some e, total_rows, say (ErrorReading f e) s1)
      | Inr df \<Rightarrow>
          (let row_count = height df;
               total_rows' = total_rows + row_count;
               s2 = say (RowCount row_count) s1;
               chunk = (if i = 1 then write_csv df else skip_header df)
           in case write_fault E f of
                Some (e, k) \<Rightarrow> (Some e, total_rows', say (ErrorReading f e) (fwrite (take k chunk) s2))
              | None \<Rightarrow> polars_loop E n (i + 1) fs total_rows' (fwrite chunk s2)))"

definition combine_csv_polars :: "env \<Rightarrow> path list \<Rightarrow> state \<Rightarrow> exn option \<times> state" where
  "combine_csv_polars E csv_files s =
     (let n = length csv_files;
          s0 = say Rule (say OutputFile (say (Combining n Polars) s))
      in case polars_loop E n 1 csv_files 0 (open_w s0) of
           (Some e, total_rows, s') \<Rightarrow> (Some e, s')
         | (None, total_rows, s') \<Rightarrow>
             (None, say Output (say (TotalRows total_rows) (say (Success n) (say Rule s')))))"


section \<open>combine\_csv\_pandas\<close>

text \<open>
  \<open>df.to_csv(output_file, index=False, mode='w')\<close> replaces the file,
  \<open>mode='a', header=False\<close> appends the rows to it (creating it when absent).
\<close>

fun pandas_loop ::
  "env \<Rightarrow> nat \<Rightarrow> nat \<Rightarrow> path list \<Rightarrow> nat \<Rightarrow> bool \<Rightarrow> state \<Rightarrow> exn option \<times> nat \<times> state" where
  "pandas_loop E n i [] total_rows first_file s = (None, total_rows, s)"
| "pandas_loop E n i (f # fs) total_rows first_file s =
     (let s1 = note_read f (say (Reading i n f) s) in
      case read_csv E f of
        Inl e \<Rightarrow> (Some e, total_rows, say (ErrorReading f e) s1)
      | Inr df \<Rightarrow>
          (let row_count = height df;
               total_rows' = total_rows + row_count;
               s2 = say (RowCount row_count) s1;
               s3 = (if first_file then open_w s2 else s2);
               chunk = (if first_file then write_csv df else rows_text df)
           in case write_fault E f of
                Some (e, k) \<Rightarrow> (Some e, total_rows', say (ErrorReading f e) (fwrite (take k chunk) s3))
              | None \<Rightarrow> pandas_loop E n (i + 1) fs total_rows' False (fwrite chunk s3)))"

definition combine_csv_pandas :: "env \<Rightarrow> path list \<Rightarrow> state \<Rightarrow> exn option \<times> state" where
  "combine_csv_pandas E csv_files s =
     (let n = length csv_files;
          s0 = say Rule (say OutputFile (say (Combining n Pandas) s))
      in case pandas_loop E n 1 csv_files 0 True s0 of
           (Some e, total_rows, s') \<Rightarrow> (Some e, s')
         | (None, total_rows, s') \<Rightarrow>
             (None, say Output (say (TotalRows total_rows) (say (Success n) (say Rule s')))))"


section \<open>main\<close>

text \<open>
  The result is the exit status of the process and the final state.
  \<open>sorted\<close> orders the paths of one directory by their names, compared code point
  by code point.
\<close>

definition main :: "env \<Rightarrow> state \<Rightarrow> nat \<times> state" where
  "main E s =
     (if \<not> dir_exists E then (1, say DirMissing s)
      else
        let csv_files = sort (listing E) in
        if csv_files = [] then (1, say NoCsvFound s)
        else
          case (if outfile s \<noteq> None
                then (let s1 = say Prompt s in
                      if str_lower (ulower E) (response E) \<noteq> str ''y''
                      then Inl (say Cancelled s1)
                      else Inr (say Blank s1))
                else Inr s) of
            Inl s' \<Rightarrow> (0, s')
          | Inr s' \<Rightarrow>
              (let eng = (if use_polars E then Polars else Pandas);
                   s2 = say Blank (say (Using eng) (say (Found (length csv_files)) s'))
               in case (if use_polars E then combine_csv_polars E csv_files s2
                        else combine_csv_pandas E csv_files s2) of
                    (Some e, s3) \<Rightarrow> (1, say (Failed e) s3)
                  | (None, s3) \<Rightarrow> (0, say OutputSize s3)))"


section \<open>Notions used in the statements\<close>

text \<open>
  The state in which \<open>main\<close> calls the chosen combine function (after the prompt,
  if there was one, and the three lines printed before the call), and that call.
\<close>

definition started :: "env \<Rightarrow> state \<Rightarrow> state" where
  "started E s =
     say Blank (say (Using (if use_polars E then Polars else Pandas))
       (say (Found (length (listing E))) (if outfile s = None then s else say Blank (say Prompt s))))"

definition combine :: "env \<Rightarrow> state \<Rightarrow> exn option \<times> state" where
  "combine E s =
     (if use_polars E then combine_csv_polars E (sort (listing E)) s
      else combine_csv_pandas E (sort (listing E)) s)"

text \<open>
  The text the output is meant to hold for the tables of the input files, in order:
  the first table with its header line, then the rows of the others.
\<close>

definition combined :: "dataframe list \<Rightarrow> pystr" where
  "combined dfs = (case dfs of [] \<Rightarrow> [] | d # ds \<Rightarrow> write_csv d @ concat (map rows_text ds))"





section \<open>Concrete runs\<close>

text \<open>
  A table from its lines, a directory of named files (each with what the reader
  returns for it), and the environment of a run over such a directory in which no
  write fails. \<open>fresh\<close> is a state without an output file, \<open>existing\<close> one with it.
\<close>

definition tab :: "string \<Rightarrow> string list \<Rightarrow> dataframe" where
  "tab h rs = \<lparr>header_line = str h, row_lines = map str rs\<rparr>"

definition disk :: "(string \<times> (exn + dataframe)) list \<Rightarrow> path \<Rightarrow> exn + dataframe" where
  "disk files p =
     (case map_of (map (\<lambda>(name, r). (str name, r)) files) p of
        None \<Rightarrow> Inl (Exn (str ''no such file''))
      | Some r \<Rightarrow> r)"

definition run_env :: "bool \<Rightarrow> (string \<times> (exn + dataframe)) list \<Rightarrow> string \<Rightarrow> env" where
  "run_env polars files answer =
     \<lparr>dir_exists = True, listing = map (\<lambda>(name, r). str name) files, read_csv = disk files,
      write_fault = (\<lambda>p. None), response = str answer, use_polars = polars, ulower = (\<lambda>s. s)\<rparr>"

definition fresh :: state where
  "fresh = \<lparr>console = [], outfile = None, read_log = []\<rparr>"

definition existing :: state where
  "existing = \<lparr>console = [], outfile = Some (str ''old''), read_log = []\<rparr>"

text \<open>The scenario of the specification: two rows in \<open>a.csv\<close>, three in \<open>b.csv\<close>.\<close>

definition ex_scenario :: "(string \<times> (exn + dataframe)) list" where
  "ex_scenario =
     [(''b.csv'', Inr (tab ''id,val'' [''5,6'', ''7,8'', ''9,10''])),
      (''a.csv'', Inr (tab ''id,val'' [''1,2'', ''3,4'']))]"

text \<open>The last row of the second file ends in a space.\<close>

definition ex_trailing :: "(string \<times> (exn + dataframe)) list" where
  "ex_trailing =
     [(''a.csv'', Inr (tab ''id,val'' [''1,x''])), (''b.csv'', Inr (tab ''id,val'' [''2,y '']))]"

text \<open>One column; the last row of the second file is a single space.\<close>

definition ex_blank_row :: "(string \<times> (exn + dataframe)) list" where
  "ex_blank_row = [(''a.csv'', Inr (tab ''a'' [''w''])), (''b.csv'', Inr (tab ''a'' [''x'', '' '']))]"

text \<open>The second file has a header line and no rows.\<close>

definition ex_header_only :: "(string \<times> (exn + dataframe)) list" where
  "ex_header_only = [(''a.csv'', Inr (tab ''id,val'' [''1,2''])), (''b.csv'', Inr (tab ''id,val'' []))]"

text \<open>The reader raises on \<open>b.csv\<close>.\<close>

definition ex_unreadable :: "(string \<times> (exn + dataframe)) list" where
  "ex_unreadable =
     [(''a.csv'', Inr (tab ''id,val'' [''1,2''])), (''b.csv'', Inl (Exn (str ''bad''))),
      (''c.csv'', Inr (tab ''id,val'' [''3,4'']))]"


section \<open>Strings: splitting, joining, stripping\<close>










section \<open>The loops when nothing raises\<close>

lemma outfile_say [simp]: "outfile (say m s) = outfile s"
  and read_log_say [simp]: "read_log (say m s) = read_log s"
  and console_say [simp]: "console (say m s) = console s @ [m]"
  by (simp_all add: say_def)

lemma outfile_note_read [simp]: "outfile (note_read f s) = outfile s"
  and read_log_note_read [simp]: "read_log (note_read f s) = read_log s @ [f]"
  and console_note_read [simp]: "console (note_read f s) = console s"
  by (simp_all add: note_read_def)

lemma outfile_open_w [simp]: "outfile (open_w s) = Some []"
  and read_log_open_w [simp]: "read_log (open_w s) = read_log s"
  and console_open_w [simp]: "console (open_w s) = console s"
  by (simp_all add: open_w_def)

lemma outfile_fwrite [simp]: "outfile s = Some c \<Longrightarrow> outfile (fwrite x s) = Some (c @ x)"
  and read_log_fwrite [simp]: "read_log (fwrite x s) = read_log s"
  and console_fwrite [simp]: "console (fwrite x s) = console s"
  by (simp_all add: fwrite_def)






section \<open>The loops when a file raises\<close>




section \<open>The combine functions and main in terms of the loops\<close>

lemma sort_Nil_iff: "sort xs = [] \<longleftrightarrow> xs = []"
  using length_sort [of "\<lambda>x. x" xs] by (metis length_0_conv)

text \<open>What a combine function returns, in terms of its loop.\<close>

lemma combine_csv_polars_proj:
  assumes "polars_loop E (length fs) 1 fs 0
             (open_w (say Rule (say OutputFile (say (Combining (length fs) Polars) s)))) = (x, k, s')"
  shows "fst (combine_csv_polars E fs s) = x"
    and "outfile (snd (combine_csv_polars E fs s)) = outfile s'"
    and "read_log (snd (combine_csv_polars E fs s)) = read_log s'"
    and "console (snd (combine_csv_polars E fs s)) =
           console s' @ (if x = None then [Rule, Success (length fs), TotalRows k, Output] else [])"
  using assms by (cases x; simp add: combine_csv_polars_def Let_def)+

lemma combine_csv_pandas_proj:
  assumes "pandas_loop E (length fs) 1 fs 0 True
             (say Rule (say OutputFile (say (Combining (length fs) Pandas) s))) = (x, k, s')"
  shows "fst (combine_csv_pandas E fs s) = x"
    and "outfile (snd (combine_csv_pandas E fs s)) = outfile s'"
    and "read_log (snd (combine_csv_pandas E fs s)) = read_log s'"
    and "console (snd (combine_csv_pandas E fs s)) =
           console s' @ (if x = None then [Rule, Success (length fs), TotalRows k, Output] else [])"
  using assms by (cases x; simp add: combine_csv_pandas_def Let_def)+


section \<open>The output depends on the input files only\<close>

lemma polars_loop_cong:
  assumes "read_csv E1 = read_csv E2" "write_fault E1 = write_fault E2" "outfile s = outfile t"
  shows "fst (polars_loop E1 n i fs k s) = fst (polars_loop E2 n i fs k t) \<and>
         fst (snd (polars_loop E1 n i fs k s)) = fst (snd (polars_loop E2 n i fs k t)) \<and>
         outfile (snd (snd (polars_loop E1 n i fs k s))) = outfile (snd (snd (polars_loop E2 n i fs k t)))"
  using assms(3)
proof (induction fs arbitrary: i k s t)
  case Nil
  then show ?case by simp
next
  case (Cons f fs)
  have rd: "read_csv E1 f = read_csv E2 f" and wf: "write_fault E1 f = write_fault E2 f"
    using assms(1,2) by simp_all
  show ?case
  proof (cases "read_csv E2 f")
    case (Inl e)
    with rd Cons.prems show ?thesis by (simp add: Let_def)
  next
    case (Inr df)
    show ?thesis
    proof (cases "write_fault E2 f")
      case None
      define x where "x = (if i = 1 then write_csv df else skip_header df)"
      define s2 where "s2 = fwrite x (say (RowCount (height df)) (note_read f (say (Reading i n f) s)))"
      define t2 where "t2 = fwrite x (say (RowCount (height df)) (note_read f (say (Reading i n f) t)))"
      have o: "outfile s2 = outfile t2" using Cons.prems by (simp add: fwrite_def s2_def t2_def)
      have a: "polars_loop E1 n i (f # fs) k s = polars_loop E1 n (i + 1) fs (k + height df) s2"
        using rd wf Inr None by (simp add: Let_def s2_def x_def)
      have b: "polars_loop E2 n i (f # fs) k t = polars_loop E2 n (i + 1) fs (k + height df) t2"
        using Inr None by (simp add: Let_def t2_def x_def)
      show ?thesis unfolding a b by (rule Cons.IH [OF o])
    next
      case (Some p)
      obtain e j where p: "p = (e, j)" by (cases p)
      have "write_fault E2 f = Some (e, j)" "write_fault E1 f = Some (e, j)"
        using Some p wf by simp_all
      with Inr rd Cons.prems show ?thesis
        by (simp add: Let_def fwrite_def)
    qed
  qed
qed

lemma pandas_loop_cong:
  assumes "read_csv E1 = read_csv E2" "write_fault E1 = write_fault E2" "outfile s = outfile t"
  shows "fst (pandas_loop E1 n i fs k b s) = fst (pandas_loop E2 n i fs k b t) \<and>
         fst (snd (pandas_loop E1 n i fs k b s)) = fst (snd (pandas_loop E2 n i fs k b t)) \<and>
         outfile (snd (snd (pandas_loop E1 n i fs k b s))) = outfile (snd (snd (pandas_loop E2 n i fs k b t)))"
  using assms(3)
proof (induction fs arbitrary: i k b s t)
  case Nil
  then show ?case by simp
next
  case (Cons f fs)
  have rd: "read_csv E1 f = read_csv E2 f" and wf: "write_fault E1 f = write_fault E2 f"
    using assms(1,2) by simp_all
  show ?case
  proof (cases "read_csv E2 f")
    case (Inl e)
    with rd Cons.prems show ?thesis by (simp add: Let_def)
  next
    case (Inr df)
    show ?thesis
    proof (cases "write_fault E2 f")
      case None
      define x where "x = (if b then write_csv df else rows_text df)"
      define s2 where "s2 = fwrite x ((if b then open_w else id) (say (RowCount (height df)) (note_read f (say (Reading i n f) s))))"
      define t2 where "t2 = fwrite x ((if b then open_w else id) (say (RowCount (height df)) (note_read f (say (Reading i n f) t))))"
      have o: "outfile s2 = outfile t2" using Cons.prems by (simp add: fwrite_def s2_def t2_def)
      have a: "pandas_loop E1 n i (f # fs) k b s = pandas_loop E1 n (i + 1) fs (k + height df) False s2"
        using rd wf Inr None by (simp add: Let_def s2_def x_def)
      have b: "pandas_loop E2 n i (f # fs) k b t = pandas_loop E2 n (i + 1) fs (k + height df) False t2"
        using Inr None by (simp add: Let_def t2_def x_def)
      show ?thesis unfolding a b by (rule Cons.IH [OF o])
    next
      case (Some p)
      obtain e j where p: "p = (e, j)" by (cases p)
      have "write_fault E2 f = Some (e, j)" "write_fault E1 f = Some (e, j)"
        using Some p wf by simp_all
      with Inr rd Cons.prems show ?thesis
        by (simp add: Let_def fwrite_def)
    qed
  qed
qed

lemma main_combines:
  assumes "dir_exists E" "listing E \<noteq> []"
    "outfile s = None \<or> str_lower (ulower E) (response E) = str ''y''"
  shows "main E s = (case combine E (started E s) of
                       (Some e, s3) \<Rightarrow> (1, say (Failed e) s3)
                     | (None, s3) \<Rightarrow> (0, say OutputSize s3))"
proof (cases "outfile s")
  case None
  with assms(1,2) show ?thesis
    by (simp add: main_def Let_def started_def combine_def sort_Nil_iff)
next
  case (Some c)
  with assms show ?thesis
    by (simp add: main_def Let_def started_def combine_def sort_Nil_iff)
qed

lemma main_proj:
  assumes "dir_exists E" "listing E \<noteq> []"
    "outfile s = None \<or> str_lower (ulower E) (response E) = str ''y''"
    "combine E (started E s) = (x, s3)"
  shows "fst (main E s) = (if x = None then 0 else 1)"
    and "outfile (snd (main E s)) = outfile s3"
    and "read_log (snd (main E s)) = read_log s3"
    and "console (snd (main E s)) = console s3 @ [case x of None \<Rightarrow> OutputSize | Some e \<Rightarrow> Failed e]"
  using assms(4) by (cases x; simp add: main_combines [OF assms(1,2,3)])+

lemma combine_csv_polars_cong:
  assumes "read_csv E1 = read_csv E2" "write_fault E1 = write_fault E2"
  shows "fst (combine_csv_polars E1 fs s) = fst (combine_csv_polars E2 fs t) \<and>
         outfile (snd (combine_csv_polars E1 fs s)) = outfile (snd (combine_csv_polars E2 fs t))"
proof -
  define s0 where "s0 = open_w (say Rule (say OutputFile (say (Combining (length fs) Polars) s)))"
  define t0 where "t0 = open_w (say Rule (say OutputFile (say (Combining (length fs) Polars) t)))"
  have o: "outfile s0 = outfile t0" by (simp add: s0_def t0_def)
  obtain x k s' where a: "polars_loop E1 (length fs) 1 fs 0 s0 = (x, k, s')"
    by (cases "polars_loop E1 (length fs) 1 fs 0 s0") auto
  obtain y j t' where b: "polars_loop E2 (length fs) 1 fs 0 t0 = (y, j, t')"
    by (cases "polars_loop E2 (length fs) 1 fs 0 t0") auto
  from polars_loop_cong [OF assms o, of "length fs" 1 fs 0] a b
  have "x = y" "outfile s' = outfile t'" by simp_all
  then show ?thesis
    using combine_csv_polars_proj(1,2) [OF a [unfolded s0_def]]
      combine_csv_polars_proj(1,2) [OF b [unfolded t0_def]] by simp
qed

lemma combine_csv_pandas_cong:
  assumes "read_csv E1 = read_csv E2" "write_fault E1 = write_fault E2" "outfile s = outfile t"
  shows "fst (combine_csv_pandas E1 fs s) = fst (combine_csv_pandas E2 fs t) \<and>
         outfile (snd (combine_csv_pandas E1 fs s)) = outfile (snd (combine_csv_pandas E2 fs t))"
proof -
  define s0 where "s0 = say Rule (say OutputFile (say (Combining (length fs) Pandas) s))"
  define t0 where "t0 = say Rule (say OutputFile (say (Combining (length fs) Pandas) t))"
  have o: "outfile s0 = outfile t0" using assms(3) by (simp add: s0_def t0_def)
  obtain x k s' where a: "pandas_loop E1 (length fs) 1 fs 0 True s0 = (x, k, s')"
    by (cases "pandas_loop E1 (length fs) 1 fs 0 True s0") auto
  obtain y j t' where b: "pandas_loop E2 (length fs) 1 fs 0 True t0 = (y, j, t')"
    by (cases "pandas_loop E2 (length fs) 1 fs 0 True t0") auto
  from pandas_loop_cong [OF assms(1,2) o, of "length fs" 1 fs 0 True] a b
  have "x = y" "outfile s' = outfile t'" by simp_all
  then show ?thesis
    using combine_csv_pandas_proj(1,2) [OF a [unfolded s0_def]]
      combine_csv_pandas_proj(1,2) [OF b [unfolded t0_def]] by simp
qed

lemma combine_cong:
  assumes "sort (listing E1) = sort (listing E2)" "read_csv E1 = read_csv E2"
    "write_fault E1 = write_fault E2" "use_polars E1 = use_polars E2" "outfile s = outfile t"
  shows "fst (combine E1 s) = fst (combine E2 t) \<and>
         outfile (snd (combine E1 s)) = outfile (snd (combine E2 t))"
  using combine_csv_polars_cong [OF assms(2,3), of "sort (listing E2)" s t]
    combine_csv_pandas_cong [OF assms(2,3,5), of "sort (listing E2)"] assms(1,4)
  by (simp add: combine_def)


section \<open>The answer at the prompt\<close>

lemma str_y: "str ''y'' = [121]" and str_Y: "str ''Y'' = [89]"
  by (simp_all add: str_def)

lemma ascii_lower_y: "ascii_lower c = 121 \<longleftrightarrow> c = 121 \<or> c = 89"
  by (auto simp: ascii_lower_def)

lemma str_lower_y:
  assumes "\<forall>r. \<not> list_all (\<lambda>c. c < 128) r \<longrightarrow> u r \<noteq> str ''y''"
  shows "str_lower u r = str ''y'' \<longleftrightarrow> r = str ''y'' \<or> r = str ''Y''"
proof (cases "list_all (\<lambda>c. c < 128) r")
  case True
  then have "str_lower u r = map ascii_lower r" by (simp add: str_lower_def)
  moreover have "map ascii_lower r = [121] \<longleftrightarrow> r = [121] \<or> r = [89]"
    by (cases r) (auto simp: ascii_lower_y)
  ultimately show ?thesis by (simp add: str_y str_Y)
next
  case False
  with assms have "str_lower u r \<noteq> str ''y''" by (simp add: str_lower_def)
  moreover from False have "r \<noteq> str ''y''" "r \<noteq> str ''Y''" by (auto simp: str_y str_Y)
  ultimately show ?thesis by simp
qed

lemma main_cancelled:
  assumes "dir_exists E" "listing E \<noteq> []" "outfile s \<noteq> None"
    "str_lower (ulower E) (response E) \<noteq> str ''y''"
  shows "main E s = (0, say Cancelled (say Prompt s))"
  using assms by (simp add: main_def Let_def sort_Nil_iff)


section \<open>The console only grows\<close>

lemma polars_loop_console: "\<exists>out. console (snd (snd (polars_loop E n i fs k s))) = console s @ out"
proof (induction fs arbitrary: i k s)
  case Nil
  show ?case by simp
next
  case (Cons f fs)
  show ?case
  proof (cases "read_csv E f")
    case (Inl e)
    then show ?thesis by (simp add: Let_def)
  next
    case (Inr df)
    show ?thesis
    proof (cases "write_fault E f")
      case None
      define s2 where "s2 = fwrite (if i = 1 then write_csv df else skip_header df)
        (say (RowCount (height df)) (note_read f (say (Reading i n f) s)))"
      have a: "polars_loop E n i (f # fs) k s = polars_loop E n (i + 1) fs (k + height df) s2"
        using Inr None by (simp add: Let_def s2_def)
      from Cons.IH [of "i + 1" "k + height df" s2]
      obtain out where "console (snd (snd (polars_loop E n (i + 1) fs (k + height df) s2))) = console s2 @ out"
        by blast
      then show ?thesis unfolding a by (simp add: s2_def)
    next
      case (Some p)
      obtain e j where "p = (e, j)" by (cases p)
      with Some Inr show ?thesis by (simp add: Let_def)
    qed
  qed
qed

lemma pandas_loop_console: "\<exists>out. console (snd (snd (pandas_loop E n i fs k b s))) = console s @ out"
proof (induction fs arbitrary: i k b s)
  case Nil
  show ?case by simp
next
  case (Cons f fs)
  show ?case
  proof (cases "read_csv E f")
    case (Inl e)
    then show ?thesis by (simp add: Let_def)
  next
    case (Inr df)
    show ?thesis
    proof (cases "write_fault E f")
      case None
      define s2 where "s2 = fwrite (if b then write_csv df else rows_text df)
        ((if b then open_w else id) (say (RowCount (height df)) (note_read f (say (Reading i n f) s))))"
      have a: "pandas_loop E n i (f # fs) k b s = pandas_loop E n (i + 1) fs (k + height df) False s2"
        using Inr None by (simp add: Let_def s2_def)
      from Cons.IH [of "i + 1" "k + height df" False s2]
      obtain out where "console (snd (snd (pandas_loop E n (i + 1) fs (k + height df) False s2))) = console s2 @ out"
        by blast
      then show ?thesis unfolding a by (simp add: s2_def)
    next
      case (Some p)
      obtain e j where "p = (e, j)" by (cases p)
      with Some Inr show ?thesis by (simp add: Let_def)
    qed
  qed
qed

lemma combine_console: "\<exists>out. console (snd (combine E s)) = console s @ out"
proof (cases "use_polars E")
  case True
  define fs where "fs = sort (listing E)"
  define s0 where "s0 = open_w (say Rule (say OutputFile (say (Combining (length fs) Polars) s)))"
  obtain x k s' where a: "polars_loop E (length fs) 1 fs 0 s0 = (x, k, s')"
    by (cases "polars_loop E (length fs) 1 fs 0 s0") auto
  from polars_loop_console [of E "length fs" 1 fs 0 s0] a
  obtain out where "console s' = console s0 @ out" by auto
  with combine_csv_polars_proj(4) [OF a [unfolded s0_def]] True
  show ?thesis by (simp add: combine_def fs_def s0_def)
next
  case False
  define fs where "fs = sort (listing E)"
  define s0 where "s0 = say Rule (say OutputFile (say (Combining (length fs) Pandas) s))"
  obtain x k s' where a: "pandas_loop E (length fs) 1 fs 0 True s0 = (x, k, s')"
    by (cases "pandas_loop E (length fs) 1 fs 0 True s0") auto
  from pandas_loop_console [of E "length fs" 1 fs 0 True s0] a
  obtain out where "console s' = console s0 @ out" by auto
  with combine_csv_pandas_proj(4) [OF a [unfolded s0_def]] False
  show ?thesis by (simp add: combine_def fs_def s0_def)
qed


section \<open>What a run without errors writes\<close>

lemma rows_text_concat:
  "concat (map rows_text ds) = concat (map (\<lambda>r. r @ [10]) (concat (map row_lines ds)))"
  by (induction ds) (simp_all add: rows_text_def)

lemma combined_rows:
  "combined (d # ds) = header_line d @ 10 # concat (map (\<lambda>r. r @ [10]) (concat (map row_lines (d # ds))))"
  using rows_text_concat [of "d # ds"] by (simp add: combined_def write_csv_def)





section \<open>Evaluating concrete runs\<close>

lemmas run_defs =
  main_def run_env_def fresh_def existing_def disk_def tab_def str_def Let_def
  combine_csv_polars_def combine_csv_pandas_def skip_header_def write_csv_def rows_text_def
  str_strip_def is_space_def say_def note_read_def open_w_def fwrite_def height_def
  str_lower_def ascii_lower_def


section \<open>The claims\<close>

text \<open>
  C1. For every non-empty sorted list of same-schema input files, the output of either
  strategy has one header line, that of the first file, and its data rows are the rows
  of the input files, in file order and in row order.

  The Pandas strategy does this (\<open>combine_csv_pandas_output\<close> with \<open>combined_rows\<close>),
  and so does the Polars strategy on tables that lines 60 to 63 leave unchanged
  (\<open>combine_csv_polars_output\<close>). On \<open>ex_trailing\<close> the Polars strategy does not: the
  row \<open>2,y\<close> followed by a space, the last row of \<open>b.csv\<close>, reaches the output
  without its space, since \<open>strip()\<close> is applied to the CSV text of the whole table.
  The theorem evaluates both strategies there.
\<close>

theorem C1_polars_strips_last_row:
  "outfile (snd (main (run_env True ex_trailing '''') fresh)) =
     Some (str ''id,val\<newline>1,x\<newline>2,y\<newline>'') \<and>
   outfile (snd (main (run_env False ex_trailing '''') fresh)) =
     Some (str ''id,val\<newline>1,x\<newline>2,y \<newline>'')"
  by (simp add: ex_trailing_def run_defs)

text \<open>
  C2. The number of data rows of the output is the sum of the numbers of data rows of
  the input files, and is the total printed in the summary.

  On \<open>ex_blank_row\<close> the Polars strategy writes the CSV text of a table with two
  rows, while the files have three rows and the summary prints three: the last row of
  \<open>b.csv\<close>, a single space, is removed by \<open>strip()\<close>.
\<close>

theorem C2_polars_loses_row:
  "outfile (snd (main (run_env True ex_blank_row '''') fresh)) = Some (write_csv (tab ''a'' [''w'', ''x''])) \<and>
   height (tab ''a'' [''w'', ''x'']) = 2 \<and>
   TotalRows 3 \<in> set (console (snd (main (run_env True ex_blank_row '''') fresh))) \<and>
   sum_list (map height [tab ''a'' [''w''], tab ''a'' [''x'', '' '']]) = 3"
  by (simp add: ex_blank_row_def run_defs)




text \<open>
  C4. An input file with a header line and no data rows, at any position, adds no
  data row and leaves the output as it is in the run without that file.

  On \<open>ex_header_only\<close> the Polars strategy writes an empty line for the second file,
  which has no rows: line 63 appends a newline to the joined rows also when there are
  none. The run without that file, and the Pandas strategy with it, write no such
  line.
\<close>

theorem C4_polars_blank_line:
  "outfile (snd (main (run_env True ex_header_only '''') fresh)) =
     Some (str ''id,val\<newline>1,2\<newline>\<newline>'') \<and>
   outfile (snd (main (run_env True (butlast ex_header_only) '''') fresh)) =
     Some (str ''id,val\<newline>1,2\<newline>'') \<and>
   outfile (snd (main (run_env False ex_header_only '''') fresh)) =
     Some (str ''id,val\<newline>1,2\<newline>'')"
  by (simp add: ex_header_only_def run_defs)



text \<open>
  C6. If the input directory does not exist, or holds no file matching the pattern,
  \<open>main\<close> prints the matching diagnostic and exits with status 1; nothing is read
  and the output file is as it was, so none is created.
\<close>

theorem C6_no_input:
  assumes "\<not> dir_exists E \<or> listing E = []"
  shows "fst (main E s) = 1 \<and> outfile (snd (main E s)) = outfile s \<and>
         read_log (snd (main E s)) = read_log s \<and>
         console (snd (main E s)) = console s @ [if dir_exists E then NoCsvFound else DirMissing]"
  using assms by (auto simp: main_def Let_def)

theorem C6_no_input_witness:
  "listing (run_env True [] '''') = [] \<and>
   fst (main (run_env True [] '''') fresh) = 1 \<and>
   outfile (snd (main (run_env True [] '''') fresh)) = None"
  using C6_no_input [of "run_env True [] ''''" fresh] by (simp add: run_env_def fresh_def)

text \<open>
  C7. If the output file exists and the answer at the prompt is not \<open>y\<close> after
  lowercasing, \<open>main\<close> prints the cancellation line and exits with status 0; no
  input file is read and the output file keeps its contents. (The prompt is reached
  only when the directory exists and holds a matching file.)
\<close>

theorem C7_declined:
  assumes "dir_exists E" "listing E \<noteq> []" "outfile s = Some c"
    "str_lower (ulower E) (response E) \<noteq> str ''y''"
  shows "fst (main E s) = 0 \<and> console (snd (main E s)) = console s @ [Prompt, Cancelled] \<and>
         read_log (snd (main E s)) = read_log s \<and> outfile (snd (main E s)) = Some c"
proof -
  have "outfile s \<noteq> None" using assms(3) by simp
  from main_cancelled [OF assms(1,2) this assms(4)] assms(3) show ?thesis by simp
qed

theorem C7_declined_witness:
  "fst (main (run_env True ex_scenario ''n'') existing) = 0 \<and>
   console (snd (main (run_env True ex_scenario ''n'') existing)) = [Prompt, Cancelled] \<and>
   read_log (snd (main (run_env True ex_scenario ''n'') existing)) = [] \<and>
   outfile (snd (main (run_env True ex_scenario ''n'') existing)) = Some (str ''old'')"
proof -
  let ?E = "run_env True ex_scenario ''n''"
  have h1: "dir_exists ?E" and h2: "listing ?E \<noteq> []"
    by (simp_all add: run_env_def ex_scenario_def)
  have h3: "outfile existing = Some (str ''old'')" by (simp add: existing_def)
  have h4: "str_lower (ulower ?E) (response ?E) \<noteq> str ''y''"
    by (simp add: run_env_def str_lower_def ascii_lower_def str_def)
  from C7_declined [OF h1 h2 h3 h4] show ?thesis by (simp add: existing_def)
qed

text \<open>
  C8. Two runs over the same input files, with the same engine and no output file
  present at the start, end with the same exit status and the same output file,
  whatever order the directory lists the files in and whatever else differs between
  the two runs (the console so far, the answer that would be given at a prompt).
\<close>

theorem C8_deterministic:
  assumes "mset (listing E1) = mset (listing E2)" "dir_exists E1 = dir_exists E2"
    "read_csv E1 = read_csv E2" "write_fault E1 = write_fault E2" "use_polars E1 = use_polars E2"
    "outfile s1 = None" "outfile s2 = None"
  shows "fst (main E1 s1) = fst (main E2 s2) \<and> outfile (snd (main E1 s1)) = outfile (snd (main E2 s2))"
proof -
  have srt: "sort (listing E1) = sort (listing E2)"
    using assms(1) by (metis sorted_list_of_multiset_mset)
  then have nil: "listing E1 = [] \<longleftrightarrow> listing E2 = []"
    by (metis sort_Nil_iff)
  show ?thesis
  proof (cases "dir_exists E2 \<and> listing E2 \<noteq> []")
    case False
    with assms(2,6,7) nil show ?thesis by (auto simp: main_def Let_def sort_Nil_iff)
  next
    case True
    then have d: "dir_exists E1" "listing E1 \<noteq> []" "dir_exists E2" "listing E2 \<noteq> []"
      using assms(2) nil by simp_all
    have o: "outfile (started E1 s1) = outfile (started E2 s2)"
      using assms(6,7) by (simp add: started_def)
    obtain x s3 where a: "combine E1 (started E1 s1) = (x, s3)"
      by (cases "combine E1 (started E1 s1)") auto
    obtain y t3 where b: "combine E2 (started E2 s2) = (y, t3)"
      by (cases "combine E2 (started E2 s2)") auto
    from combine_cong [OF srt assms(3,4,5) o] a b have "x = y" "outfile s3 = outfile t3"
      by simp_all
    then show ?thesis
      using main_proj(1,2) [OF d(1,2) disjI1 [OF assms(6)] a]
        main_proj(1,2) [OF d(3,4) disjI1 [OF assms(7)] b] by simp
  qed
qed

theorem C8_deterministic_witness:
  "outfile (snd (main (run_env True ex_scenario '''') fresh)) =
   outfile (snd (main ((run_env True ex_scenario '''')\<lparr>listing := [str ''a.csv'', str ''b.csv'']\<rparr>)
                   (say Blank fresh)))"
proof -
  let ?E = "run_env True ex_scenario ''''"
  let ?F = "?E\<lparr>listing := [str ''a.csv'', str ''b.csv'']\<rparr>"
  have h1: "mset (listing ?E) = mset (listing ?F)" by (simp add: run_env_def ex_scenario_def)
  have h6: "outfile fresh = None" and h7: "outfile (say Blank fresh) = None"
    by (simp_all add: fresh_def say_def)
  from C8_deterministic [OF h1 _ _ _ _ h6 h7] show ?thesis by simp
qed

text \<open>
  C9. At the overwrite prompt the run goes on exactly when the answer is \<open>y\<close> or
  \<open>Y\<close>; every other answer ends it with the cancellation line and status 0, the
  output file and the read trace untouched. The Unicode lowercasing of the
  interpreter is a parameter; the theorem needs of it only that no string with a
  character above 127 is lowercased to \<open>y\<close>.
\<close>

theorem C9_only_y_proceeds:
  assumes "dir_exists E" "listing E \<noteq> []" "outfile s \<noteq> None"
    and "\<forall>r. \<not> list_all (\<lambda>c. c < 128) r \<longrightarrow> ulower E r \<noteq> str ''y''"
  shows "if response E = str ''y'' \<or> response E = str ''Y''
         then \<exists>rest. console (snd (main E s)) =
                console s @ Prompt # Blank # Found (length (listing E)) # rest
         else main E s = (0, say Cancelled (say Prompt s))"
proof (cases "response E = str ''y'' \<or> response E = str ''Y''")
  case True
  then have y: "str_lower (ulower E) (response E) = str ''y''"
    using str_lower_y [OF assms(4)] by simp
  obtain x s3 where a: "combine E (started E s) = (x, s3)"
    by (cases "combine E (started E s)") auto
  from combine_console [of E "started E s"] a obtain out where
    "console s3 = console (started E s) @ out" by auto
  with main_proj(4) [OF assms(1,2) disjI2 [OF y] a] assms(3) True
  show ?thesis by (simp add: started_def)
next
  case False
  then have "str_lower (ulower E) (response E) \<noteq> str ''y''"
    using str_lower_y [OF assms(4)] by simp
  from main_cancelled [OF assms(1,2,3) this] False show ?thesis by simp
qed

theorem C9_only_y_proceeds_witness:
  "main (run_env True ex_scenario ''yes'') existing = (0, say Cancelled (say Prompt existing)) \<and>
   (\<exists>rest. console (snd (main (run_env True ex_scenario ''Y'') existing)) =
      Prompt # Blank # Found 2 # rest)"
proof -
  let ?E = "\<lambda>a. run_env True ex_scenario a"
  have h1: "dir_exists (?E a)" and h2: "listing (?E a) \<noteq> []" for a
    by (simp_all add: run_env_def ex_scenario_def)
  have h3: "outfile existing \<noteq> None" by (simp add: existing_def)
  have h4: "\<forall>r. \<not> list_all (\<lambda>c. c < 128) r \<longrightarrow> ulower (?E a) r \<noteq> str ''y''" for a
    by (auto simp: run_env_def str_def)
  have y: "response (?E ''yes'') \<noteq> str ''y''" "response (?E ''yes'') \<noteq> str ''Y''"
    "response (?E ''Y'') = str ''Y''"
    by (simp_all add: run_env_def str_def)
  have l: "length (listing (?E ''Y'')) = 2" by (simp add: run_env_def ex_scenario_def)
  have c: "console existing = []" by (simp add: existing_def)
  from C9_only_y_proceeds [OF h1 h2 h3 h4, of "''yes''"] C9_only_y_proceeds [OF h1 h2 h3 h4, of "''Y''"] y l c
  show ?thesis by simp
qed

text \<open>
  C10. When the reader raises on the first file, the Polars strategy, which opened the
  output for writing before the loop, leaves it existing and empty; the Pandas
  strategy, which writes only after a successful read, leaves it as it was. Both
  pass the exception on.
\<close>

theorem C10_first_read_fails:
  assumes "read_csv E f = Inl e"
  shows "outfile (snd (combine_csv_polars E (f # fs) s)) = Some [] \<and>
         outfile (snd (combine_csv_pandas E (f # fs) s)) = outfile s \<and>
         fst (combine_csv_polars E (f # fs) s) = Some e \<and>
         fst (combine_csv_pandas E (f # fs) s) = Some e"
  using assms by (simp add: combine_csv_polars_def combine_csv_pandas_def Let_def)

theorem C10_first_read_fails_witness:
  "read_csv (run_env True (tl ex_unreadable) '''') (str ''b.csv'') = Inl (Exn (str ''bad'')) \<and>
   outfile (snd (combine_csv_polars (run_env True (tl ex_unreadable) '''') [str ''b.csv'', str ''c.csv''] existing)) = Some [] \<and>
   outfile (snd (combine_csv_pandas (run_env True (tl ex_unreadable) '''') [str ''b.csv'', str ''c.csv''] existing)) = Some (str ''old'')"
proof -
  let ?E = "run_env True (tl ex_unreadable) ''''"
  have h: "read_csv ?E (str ''b.csv'') = Inl (Exn (str ''bad''))"
    by (simp add: run_env_def ex_unreadable_def disk_def str_def)
  from C10_first_read_fails [OF h, of "[str ''c.csv'']" existing] h show ?thesis
    by (simp add: existing_def)
qed

end
